theory Spec2Isabelle
  imports Main
begin

section \<open>JavaScript numbers and strings\<close>

text \<open>
  A JavaScript string is modelled as a \<open>string\<close>, every character standing for one code
  unit below 256. The numbers the program handles are integers or \<open>NaN\<close> (the result of
  \<open>parseInt\<close> on a string without digits), so a number is an \<open>int\<close> or \<open>NaN\<close>.
\<close>

datatype number = NaN | Number int

fun js_add :: "number \<Rightarrow> number \<Rightarrow> number" where
  "js_add (Number x) (Number y) = Number (x + y)"
| "js_add _ _ = NaN"

fun js_sub :: "number \<Rightarrow> number \<Rightarrow> number" where
  "js_sub (Number x) (Number y) = Number (x - y)"
| "js_sub _ _ = NaN"

fun js_gt :: "number \<Rightarrow> number \<Rightarrow> bool" where
  "js_gt (Number x) (Number y) = (x > y)"
| "js_gt _ _ = False"

fun js_strict_eq :: "number \<Rightarrow> number \<Rightarrow> bool" where
  "js_strict_eq (Number x) (Number y) = (x = y)"
| "js_strict_eq _ _ = False"

definition digit_char :: "nat \<Rightarrow> char" where
  "digit_char d = ''0123456789'' ! d"

fun show_nat :: "nat \<Rightarrow> string" where
  "show_nat n = (if n < 10 then [digit_char n] else show_nat (n div 10) @ [digit_char (n mod 10)])"

declare show_nat.simps [simp del]

text \<open>\<open>String(n)\<close>, as a template literal \<open>${n}\<close> applies it.\<close>

fun number_toString :: "number \<Rightarrow> string" where
  "number_toString NaN = ''NaN''"
| "number_toString (Number i) = (if i < 0 then ''-'' @ show_nat (nat (- i)) else show_nat (nat i))"

text \<open>White space and line terminators among the code units below 256.\<close>

definition is_whitespace :: "char \<Rightarrow> bool" where
  "is_whitespace c = (c \<in> set [CHR 0x09, CHR 0x0A, CHR 0x0B, CHR 0x0C, CHR 0x0D, CHR 0x20, CHR 0xA0])"

definition trim :: "string \<Rightarrow> string" where
  "trim s = rev (dropWhile is_whitespace (rev (dropWhile is_whitespace s)))"

definition is_digit :: "char \<Rightarrow> bool" where
  "is_digit c = (c \<in> set ''0123456789'')"

definition digit_value :: "char \<Rightarrow> nat" where
  "digit_value c = of_char c - 48"

definition digits_value :: "string \<Rightarrow> nat" where
  "digits_value ds = foldl (\<lambda>acc c. 10 * acc + digit_value c) 0 ds"

text \<open>
  \<open>parseInt(inputString, 10)\<close>: leading white space is skipped, one sign is read, the
  longest prefix of decimal digits is the value, and no digit at all gives \<open>NaN\<close>.
\<close>

definition parseInt10 :: "string \<Rightarrow> number" where
  "parseInt10 inputString =
     (let S = dropWhile is_whitespace inputString;
          sign = (if S \<noteq> [] \<and> hd S = CHR ''-'' then - 1 else 1);
          S = (if S \<noteq> [] \<and> (hd S = CHR ''+'' \<or> hd S = CHR ''-'') then tl S else S);
          Z = takeWhile is_digit S
      in if Z = [] then NaN else Number (sign * int (digits_value Z)))"

definition startsWith :: "string \<Rightarrow> string \<Rightarrow> bool" where
  "startsWith s p = (take (length p) s = p)"

section \<open>The document and its heading elements\<close>

text \<open>
  The analyzer reads two things of an element: its \<open>tagName\<close> (upper case for the elements
  of an HTML document) and its \<open>textContent\<close>. A document is the list of its elements in
  document order; the selector \<open>h1, h2, h3, h4, h5, h6\<close> keeps the heading elements.
\<close>

record element =
  tagName :: string
  textContent :: "string option"

type_synonym Document = "element list"

definition heading_tag_names :: "string list" where
  "heading_tag_names = [''H1'', ''H2'', ''H3'', ''H4'', ''H5'', ''H6'']"

definition querySelectorAll_headings :: "Document \<Rightarrow> element list" where
  "querySelectorAll_headings doc = filter (\<lambda>e. tagName e \<in> set heading_tag_names) doc"

section \<open>The heading analyzer\<close>

record HeadingInfo =
  level :: number
  text' :: string
  element :: element
  issues :: "string list"

text \<open>The local variables of \<open>analyzeHeadings\<close> that the loop and the summary checks update.\<close>

record locals =
  lastLevel :: number
  headingsInfo :: "HeadingInfo list"
  summary :: "string list"
  h1Count :: nat

definition skipped_message :: "number \<Rightarrow> number \<Rightarrow> string" where
  "skipped_message lastLevel_v level_v =
     ''Skipped heading level: H'' @ number_toString lastLevel_v @ '' followed by H''
       @ number_toString level_v @ ''.''"

definition forEach_body :: "locals \<Rightarrow> element \<Rightarrow> nat \<Rightarrow> locals" where
  "forEach_body st h index =
     (let lv = parseInt10 (drop 1 (tagName h));
          txt = (case textContent h of None \<Rightarrow> [] | Some t \<Rightarrow> trim t);
          st = (if js_strict_eq lv (Number 1) then st\<lparr>h1Count := h1Count st + 1\<rparr> else st);
          iss = (if index > 0 \<and> js_gt lv (js_add (lastLevel st) (Number 1))
                 then [skipped_message (lastLevel st) lv] else [])
      in st\<lparr>headingsInfo := headingsInfo st @ [\<lparr>level = lv, text' = txt, element = h, issues = iss\<rparr>],
             lastLevel := lv\<rparr>)"

fun forEach :: "locals \<Rightarrow> element list \<Rightarrow> nat \<Rightarrow> locals" where
  "forEach st [] index = st"
| "forEach st (h # hs) index = forEach (forEach_body st h index) hs (Suc index)"

definition analyzeHeadings :: "Document \<Rightarrow> HeadingInfo list \<times> string list" where
  "analyzeHeadings doc =
     (let headingElements = querySelectorAll_headings doc;
          st = forEach \<lparr>lastLevel = Number 0, headingsInfo = [], summary = [], h1Count = 0\<rparr>
                 headingElements 0;
          st = (if h1Count st = 0
                then st\<lparr>summary := summary st @ [''Error: No H1 tag found. Every page should have one H1.'']\<rparr>
                else if h1Count st > 1
                then st\<lparr>summary := summary st @ [''Warning: Multiple H1 tags found ('' @ show_nat (h1Count st)
                         @ ''). Best practice is to have only one H1 per page.'']\<rparr>
                else st\<lparr>summary := summary st @ [''Good: Exactly one H1 tag found.'']\<rparr>);
          skippedLevelIssue =
            list_ex (\<lambda>h. list_ex (\<lambda>issue. startsWith issue ''Skipped'') (issues h)) (headingsInfo st);
          st = (if skippedLevelIssue
                then st\<lparr>summary := summary st
                         @ [''Issue: Heading levels are skipped (e.g., H1 followed directly by H3).'']\<rparr>
                else st\<lparr>summary := summary st @ [''Good: Heading levels follow a logical sequence.'']\<rparr>)
      in (headingsInfo st, summary st))"

section \<open>The state of the application\<close>

record app_state =
  url :: string
  headings :: "HeadingInfo list"
  isLoading :: bool
  error :: "string option"
  analysisSummary :: "string list"

section \<open>The result formatter\<close>

datatype js_error = RangeError

text \<open>
  \<open>s.repeat(count)\<close>: a \<open>NaN\<close> count is taken as 0, and a negative count throws a
  \<open>RangeError\<close>.
\<close>

definition repeat :: "string \<Rightarrow> number \<Rightarrow> js_error + string" where
  "repeat s count =
     (case count of
        NaN \<Rightarrow> Inr []
      | Number n \<Rightarrow> if n < 0 then Inl RangeError else Inr (concat (replicate (nat n) s)))"

text \<open>The inner loop over the issues of one heading; every iteration appends one line.\<close>

fun forEach_issue :: "string \<Rightarrow> HeadingInfo \<Rightarrow> string list \<Rightarrow> js_error + string" where
  "forEach_issue output h [] = Inr output"
| "forEach_issue output h (issue # rest) =
     (case repeat ''  '' (js_sub (level h) (Number 1)) of
        Inl e \<Rightarrow> Inl e
      | Inr indent \<Rightarrow>
          forEach_issue (output @ indent @ ''  -> Issue: '' @ issue @ ''\<newline>'') h rest)"

fun forEach_heading :: "string \<Rightarrow> HeadingInfo list \<Rightarrow> js_error + string" where
  "forEach_heading output [] = Inr output"
| "forEach_heading output (h # hs) =
     (case repeat ''  '' (js_sub (level h) (Number 1)) of
        Inl e \<Rightarrow> Inl e
      | Inr indent \<Rightarrow>
          (case (let output = output @ indent @ ''H'' @ number_toString (level h) @ '': ''
                                @ text' h @ ''\<newline>''
                 in if length (issues h) > 0 then forEach_issue output h (issues h)
                    else Inr output) of
             Inl e \<Rightarrow> Inl e
           | Inr output \<Rightarrow> forEach_heading output hs))"

definition formatResultsForExport :: "app_state \<Rightarrow> js_error + string" where
  "formatResultsForExport s =
     (let output = ''Heading Structure Analysis for: '' @ url s @ ''\<newline>'';
          output = output @ ''========================================\<newline>\<newline>'';
          output = output @ ''Summary:\<newline>'';
          output = fold (\<lambda>item output. output @ ''- '' @ item @ ''\<newline>'') (analysisSummary s) output;
          output = output @ ''\<newline>'';
          output = output @ ''Headings Found:\<newline>''
      in case forEach_heading output (headings s) of
           Inl e \<Rightarrow> Inl e
         | Inr output \<Rightarrow> Inr (output @ ''\<newline>========================================\<newline>''))"

section \<open>Fetching and analysing a page\<close>

text \<open>
  A thrown value is an \<open>Error\<close> object with its message, or another value with its string
  conversion. The collaborators of the handler are parameters: \<open>encodeURIComponent\<close>,
  \<open>fetch\<close> (the promise rejects, or resolves to a response whose body can in turn fail to
  be read) and the HTML parser. A response carries \<open>ok\<close>, \<open>status\<close>, \<open>statusText\<close> and its
  body. \<open>encodeURIComponent\<close> throws on a lone surrogate only, which no string of this model
  contains, so it is a total function here. The handler returns the state after the run and
  the calls it made, in order.
\<close>

datatype thrown = ErrorObject string | OtherValue string

datatype response_body = TextRejects thrown | TextResolves string

datatype fetch_result =
  FetchRejects thrown
| FetchResolves bool nat string response_body

record environment =
  encodeURIComponent :: "string \<Rightarrow> string"
  fetch :: "string \<Rightarrow> fetch_result"
  parseFromString :: "string \<Rightarrow> Document"

datatype effect = Fetch string | Analyze Document | ConsoleError thrown

definition formattedUrl_of :: "string \<Rightarrow> string" where
  "formattedUrl_of u =
     (if \<not> startsWith u ''http://'' \<and> \<not> startsWith u ''https://'' then ''https://'' @ u else u)"

definition proxyUrl_of :: "environment \<Rightarrow> string \<Rightarrow> string" where
  "proxyUrl_of env u = ''https://api.allorigins.win/raw?url='' @ encodeURIComponent env (formattedUrl_of u)"

text \<open>The statements of the \<open>try\<close> block up to the parsed document; \<open>Inl\<close> is the value thrown.\<close>

definition fetch_document :: "environment \<Rightarrow> string \<Rightarrow> thrown + Document" where
  "fetch_document env proxyUrl =
     (case fetch env proxyUrl of
        FetchRejects err \<Rightarrow> Inl err
      | FetchResolves ok status statusText body \<Rightarrow>
          if \<not> ok
          then Inl (ErrorObject (''Failed to fetch: '' @ show_nat status @ '' '' @ statusText))
          else (case body of
                  TextRejects err \<Rightarrow> Inl err
                | TextResolves html \<Rightarrow> Inr (parseFromString env html)))"

definition handleFetchAndAnalyze :: "environment \<Rightarrow> app_state \<Rightarrow> app_state \<times> effect list" where
  "handleFetchAndAnalyze env s =
     (if url s = [] then (s\<lparr>error := Some ''Please enter a URL.''\<rparr>, [])
      else
        let s = s\<lparr>isLoading := True, error := None, headings := [], analysisSummary := []\<rparr>;
            proxyUrl = proxyUrl_of env (url s);
            (s, effects) =
              (case fetch_document env proxyUrl of
                 Inr doc \<Rightarrow>
                   (s\<lparr>headings := fst (analyzeHeadings doc),
                      analysisSummary := snd (analyzeHeadings doc)\<rparr>,
                    [Fetch proxyUrl, Analyze doc])
               | Inl err \<Rightarrow>
                   (s\<lparr>error := Some (''Failed to fetch or parse the URL. Error: ''
                          @ (case err of ErrorObject message \<Rightarrow> message | OtherValue str \<Rightarrow> str)
                          @ ''. This might be due to network issues, the website blocking requests, or the CORS proxy limitations.'')\<rparr>,
                    [Fetch proxyUrl, ConsoleError err]))
        in (s\<lparr>isLoading := False\<rparr>, effects))"

section \<open>Reading the heading lines of a report\<close>

text \<open>
  Modelled from the spec: the repository has no reader of its own report, and the round-trip
  property of the specification speaks of "parsing the report's heading lines back out".
  The three definitions below and \<open>split_lines\<close> are that reader. A report is cut into
  lines at its line feeds, as \<open>report.split('\n')\<close> does.
\<close>

fun split_lines :: "string \<Rightarrow> string list" where
  "split_lines [] = [[]]"
| "split_lines (c # cs) =
     (if c = CHR ''\<newline>'' then [] # split_lines cs
      else (case split_lines cs of [] \<Rightarrow> [[c]] | l # ls \<Rightarrow> (c # l) # ls))"

text \<open>
  Modelled from the spec: a heading line is \<open>(level - 1)\<close> units of two spaces, then
  \<open>H{level}: {text}\<close>. Any other line is not a heading line.
\<close>

definition parse_heading_line :: "string \<Rightarrow> (number \<times> string) option" where
  "parse_heading_line line =
     (let indent = takeWhile (\<lambda>c. c = CHR '' '') line;
          rest = dropWhile (\<lambda>c. c = CHR '' '') line
      in if rest \<noteq> [] \<and> hd rest = CHR ''H''
         then (let ds = takeWhile is_digit (tl rest);
                   after = dropWhile is_digit (tl rest)
               in if ds \<noteq> [] \<and> take 2 after = '': ''
                     \<and> int (length indent) = 2 * (int (digits_value ds) - 1)
                  then Some (Number (int (digits_value ds)), drop 2 after)
                  else None)
         else None)"

text \<open>
  Modelled from the spec: the heading lines of a report are those after its last
  \<open>Headings Found:\<close> line, so that nothing in the URL or in the summary is taken for a
  heading; a text without that line has no heading section.
\<close>

fun heading_section :: "string list \<Rightarrow> string list option" where
  "heading_section [] = None"
| "heading_section (l # ls) =
     (case heading_section ls of
        Some sec \<Rightarrow> Some sec
      | None \<Rightarrow> if l = ''Headings Found:'' then Some ls else None)"

text \<open>Modelled from the spec: the (level, text) pairs read from the heading lines, in order.\<close>

definition parse_report :: "string \<Rightarrow> (number \<times> string) list" where
  "parse_report report =
     (case heading_section (split_lines report) of
        None \<Rightarrow> []
      | Some sec \<Rightarrow> List.map_filter parse_heading_line sec)"

section \<open>Auxiliary definitions\<close>

text \<open>
  The record that the loop body pushes for the element \<open>h\<close> at position \<open>index\<close>, when
  the level of the previous heading is \<open>prev\<close>.
\<close>

definition pushed_record :: "number \<Rightarrow> nat \<Rightarrow> element \<Rightarrow> HeadingInfo" where
  "pushed_record prev index h =
     \<lparr>level = parseInt10 (drop 1 (tagName h)),
      text' = (case textContent h of None \<Rightarrow> [] | Some t \<Rightarrow> trim t),
      element = h,
      issues = (if index > 0 \<and> js_gt (parseInt10 (drop 1 (tagName h))) (js_add prev (Number 1))
                then [skipped_message prev (parseInt10 (drop 1 (tagName h)))] else [])\<rparr>"

text \<open>
  The lines of the heading section of a report, without their line feeds: one line for each
  heading, followed by one line for each of its issues. An indentation unit is two spaces.
\<close>

definition indent_units :: "number \<Rightarrow> nat" where
  "indent_units lv = (case lv of NaN \<Rightarrow> 0 | Number n \<Rightarrow> nat (n - 1))"

definition heading_line :: "HeadingInfo \<Rightarrow> string" where
  "heading_line h =
     concat (replicate (indent_units (level h)) ''  '') @ ''H'' @ number_toString (level h)
       @ '': '' @ text' h"

definition issue_line :: "HeadingInfo \<Rightarrow> string \<Rightarrow> string" where
  "issue_line h issue =
     concat (replicate (indent_units (level h)) ''  '') @ ''  -> Issue: '' @ issue"

definition report_lines :: "HeadingInfo list \<Rightarrow> string list" where
  "report_lines hs = concat (map (\<lambda>h. heading_line h # map (issue_line h) (issues h)) hs)"

text \<open>The (level, text) pairs of a sequence of heading records.\<close>

definition level_text_pairs :: "HeadingInfo list \<Rightarrow> (number \<times> string) list" where
  "level_text_pairs hs = map (\<lambda>h. (level h, text' h)) hs"

text \<open>The state that holds the URL \<open>u\<close> and the result of analysing \<open>doc\<close>.\<close>

definition held_result :: "string \<Rightarrow> Document \<Rightarrow> app_state" where
  "held_result u doc =
     \<lparr>url = u, headings = fst (analyzeHeadings doc), isLoading = False, error = None,
      analysisSummary = snd (analyzeHeadings doc)\<rparr>"

subsection \<open>Example inputs\<close>

text \<open>
  The first document is the concrete scenario of the specification (H1, H3, H2) with a
  paragraph in between; \<open>multiline_doc\<close> has one heading whose text spans two lines, and
  \<open>two_line_doc\<close> has the two headings that this text imitates.
\<close>

definition scenario_doc :: Document where
  "scenario_doc =
     [\<lparr>tagName = ''H1'', textContent = Some ''Title''\<rparr>,
      \<lparr>tagName = ''P'', textContent = Some ''body''\<rparr>,
      \<lparr>tagName = ''H3'', textContent = Some '' Sub ''\<rparr>,
      \<lparr>tagName = ''H2'', textContent = Some ''Other''\<rparr>]"

definition h4_doc :: Document where
  "h4_doc = [\<lparr>tagName = ''DIV'', textContent = Some ''Deep''\<rparr>,
             \<lparr>tagName = ''H4'', textContent = Some ''Deep''\<rparr>]"

definition decrease_doc :: Document where
  "decrease_doc = [\<lparr>tagName = ''H4'', textContent = Some ''Deep''\<rparr>,
                   \<lparr>tagName = ''H2'', textContent = Some ''Up''\<rparr>]"

definition no_heading_doc :: Document where
  "no_heading_doc = [\<lparr>tagName = ''P'', textContent = Some ''No headings here''\<rparr>]"

definition two_h1_doc :: Document where
  "two_h1_doc = [\<lparr>tagName = ''H1'', textContent = Some ''One''\<rparr>,
                 \<lparr>tagName = ''H1'', textContent = Some ''Two''\<rparr>,
                 \<lparr>tagName = ''H3'', textContent = None\<rparr>]"

definition multiline_doc :: Document where
  "multiline_doc = [\<lparr>tagName = ''H1'', textContent = Some ''Intro\<newline>  H2: Fake''\<rparr>]"

definition two_line_doc :: Document where
  "two_line_doc = [\<lparr>tagName = ''H1'', textContent = Some ''Intro''\<rparr>,
                   \<lparr>tagName = ''H2'', textContent = Some ''Fake''\<rparr>]"

definition multiline_report :: string where
  "multiline_report =
     ''Heading Structure Analysis for: example.com\<newline>''
     @ ''========================================\<newline>''
     @ ''\<newline>''
     @ ''Summary:\<newline>''
     @ ''- Good: Exactly one H1 tag found.\<newline>''
     @ ''- Good: Heading levels follow a logical sequence.\<newline>''
     @ ''\<newline>''
     @ ''Headings Found:\<newline>''
     @ ''H1: Intro\<newline>''
     @ ''  H2: Fake\<newline>''
     @ ''\<newline>''
     @ ''========================================\<newline>''"

text \<open>A state holding a result, a proxy that answers 404, and a network that is down.\<close>

definition example_state :: app_state where
  "example_state =
     \<lparr>url = ''example.com'',
      headings =
        [\<lparr>level = Number 1, text' = ''Title'',
          element = \<lparr>tagName = ''H1'', textContent = Some ''Title''\<rparr>, issues = []\<rparr>,
         \<lparr>level = Number 3, text' = ''Sub'',
          element = \<lparr>tagName = ''H3'', textContent = Some '' Sub ''\<rparr>,
          issues = [''Skipped heading level: H1 followed by H3.'']\<rparr>],
      isLoading = False, error = None,
      analysisSummary = [''Good: Exactly one H1 tag found.'',
        ''Issue: Heading levels are skipped (e.g., H1 followed directly by H3).'']\<rparr>"

definition not_found_env :: environment where
  "not_found_env =
     \<lparr>encodeURIComponent = (\<lambda>u. u),
      fetch = (\<lambda>u. FetchResolves False 404 ''Not Found'' (TextResolves ''<h1>Not Found</h1>'')),
      parseFromString = (\<lambda>html. [\<lparr>tagName = ''H1'', textContent = Some ''Not Found''\<rparr>])\<rparr>"

definition offline_env :: environment where
  "offline_env =
     \<lparr>encodeURIComponent = (\<lambda>u. u),
      fetch = (\<lambda>u. FetchRejects (ErrorObject ''Failed to fetch'')),
      parseFromString = (\<lambda>html. [])\<rparr>"

section \<open>The loop over the heading elements\<close>

lemma js_strict_eq_iff: "js_strict_eq x (Number n) \<longleftrightarrow> x = Number n"
  by (cases x) auto

lemma forEach_body_headingsInfo:
  "headingsInfo (forEach_body st h i) = headingsInfo st @ [pushed_record (lastLevel st) i h]"
  by (simp add: forEach_body_def pushed_record_def Let_def)

lemma forEach_body_lastLevel:
  "lastLevel (forEach_body st h i) = parseInt10 (drop 1 (tagName h))"
  by (simp add: forEach_body_def Let_def)

lemma forEach_body_h1Count:
  "h1Count (forEach_body st h i) =
     h1Count st + (if parseInt10 (drop 1 (tagName h)) = Number 1 then 1 else 0)"
  by (simp add: forEach_body_def Let_def js_strict_eq_iff)

lemma forEach_body_summary: "summary (forEach_body st h i) = summary st"
  by (simp add: forEach_body_def Let_def)

lemma forEach_summary: "summary (forEach st els i) = summary st"
  by (induction els arbitrary: st i) (simp_all add: forEach_body_summary)

lemma forEach_h1Count:
  "h1Count (forEach st els i) =
     h1Count st + length (filter (\<lambda>h. parseInt10 (drop 1 (tagName h)) = Number 1) els)"
  by (induction els arbitrary: st i) (simp_all add: forEach_body_h1Count)

lemma forEach_extends:
  "\<exists>ys. headingsInfo (forEach st els i) = headingsInfo st @ ys \<and> length ys = length els"
proof (induction els arbitrary: st i)
  case Nil
  then show ?case by simp
next
  case (Cons h hs)
  from Cons.IH [of "forEach_body st h i" "Suc i"] obtain ys where
    ys: "headingsInfo (forEach (forEach_body st h i) hs (Suc i)) = headingsInfo (forEach_body st h i) @ ys"
      "length ys = length hs"
    by blast
  then show ?case
    by (simp add: forEach_body_headingsInfo)
qed

lemma forEach_length:
  "length (headingsInfo (forEach st els i)) = length (headingsInfo st) + length els"
  using forEach_extends [of st els i] by auto

lemma forEach_nth:
  "k < length els \<Longrightarrow>
   headingsInfo (forEach st els i) ! (length (headingsInfo st) + k) =
     pushed_record (if k = 0 then lastLevel st else parseInt10 (drop 1 (tagName (els ! (k - 1)))))
       (i + k) (els ! k)"
proof (induction els arbitrary: st i k)
  case Nil
  then show ?case by simp
next
  case (Cons h hs)
  let ?st = "forEach_body st h i"
  show ?case
  proof (cases k)
    case 0
    obtain ys where "headingsInfo (forEach ?st hs (Suc i)) = headingsInfo ?st @ ys"
      using forEach_extends by blast
    then show ?thesis
      using 0 by (simp add: forEach_body_headingsInfo nth_append)
  next
    case (Suc k')
    then have "k' < length hs" using Cons.prems by simp
    from Cons.IH [OF this, of ?st "Suc i"] show ?thesis
      using Suc by (cases k') (simp_all add: forEach_body_headingsInfo forEach_body_lastLevel)
  qed
qed

section \<open>The result of the analyzer\<close>

lemmas eval_defs = analyzeHeadings_def querySelectorAll_headings_def heading_tag_names_def
  forEach_body_def parseInt10_def is_whitespace_def is_digit_def digits_value_def digit_value_def
  trim_def skipped_message_def show_nat.simps digit_char_def startsWith_def Let_def

lemma scenario_eval:
  "analyzeHeadings scenario_doc =
     ([\<lparr>level = Number 1, text' = ''Title'',
        element = \<lparr>tagName = ''H1'', textContent = Some ''Title''\<rparr>, issues = []\<rparr>,
       \<lparr>level = Number 3, text' = ''Sub'',
        element = \<lparr>tagName = ''H3'', textContent = Some '' Sub ''\<rparr>,
        issues = [''Skipped heading level: H1 followed by H3.'']\<rparr>,
       \<lparr>level = Number 2, text' = ''Other'',
        element = \<lparr>tagName = ''H2'', textContent = Some ''Other''\<rparr>, issues = []\<rparr>],
      [''Good: Exactly one H1 tag found.'',
       ''Issue: Heading levels are skipped (e.g., H1 followed directly by H3).''])"
  by (simp add: scenario_doc_def eval_defs)

lemma analyze_fst:
  "fst (analyzeHeadings doc) =
     headingsInfo (forEach \<lparr>lastLevel = Number 0, headingsInfo = [], summary = [], h1Count = 0\<rparr>
       (querySelectorAll_headings doc) 0)"
  by (simp add: analyzeHeadings_def Let_def)

lemma analyze_length:
  "length (fst (analyzeHeadings doc)) = length (querySelectorAll_headings doc)"
  by (simp add: analyze_fst forEach_length)

lemma analyze_nth:
  assumes "k < length (querySelectorAll_headings doc)"
  shows "fst (analyzeHeadings doc) ! k =
     pushed_record
       (if k = 0 then Number 0
        else parseInt10 (drop 1 (tagName (querySelectorAll_headings doc ! (k - 1)))))
       k (querySelectorAll_headings doc ! k)"
  using forEach_nth [OF assms,
      of "\<lparr>lastLevel = Number 0, headingsInfo = [], summary = [], h1Count = 0\<rparr>" 0]
  by (simp add: analyze_fst)

lemma heading_tag_level:
  assumes "tagName e \<in> set heading_tag_names"
  shows "\<exists>n. parseInt10 (drop 1 (tagName e)) = Number n \<and> 1 \<le> n \<and> n \<le> 6"
proof -
  from assms consider "tagName e = ''H1''" | "tagName e = ''H2''" | "tagName e = ''H3''"
    | "tagName e = ''H4''" | "tagName e = ''H5''" | "tagName e = ''H6''"
    by (auto simp: heading_tag_names_def)
  then show ?thesis
    by cases
      (simp_all add: parseInt10_def is_whitespace_def is_digit_def digits_value_def digit_value_def)
qed

lemma selected_tag:
  "k < length (querySelectorAll_headings doc) \<Longrightarrow>
   tagName (querySelectorAll_headings doc ! k) \<in> set heading_tag_names"
  using nth_mem [of k "querySelectorAll_headings doc"]
  by (simp add: querySelectorAll_headings_def)

lemma analyze_level:
  assumes "k < length (fst (analyzeHeadings doc))"
  shows "level (fst (analyzeHeadings doc) ! k) =
           parseInt10 (drop 1 (tagName (querySelectorAll_headings doc ! k)))"
    and "\<exists>n. level (fst (analyzeHeadings doc) ! k) = Number n \<and> 1 \<le> n \<and> n \<le> 6"
proof -
  from assms have k: "k < length (querySelectorAll_headings doc)"
    by (simp add: analyze_length)
  show "level (fst (analyzeHeadings doc) ! k) =
           parseInt10 (drop 1 (tagName (querySelectorAll_headings doc ! k)))"
    by (simp add: analyze_nth [OF k] pushed_record_def)
  then show "\<exists>n. level (fst (analyzeHeadings doc) ! k) = Number n \<and> 1 \<le> n \<and> n \<le> 6"
    using heading_tag_level [OF selected_tag [OF k]] by simp
qed

lemma analyze_issues:
  assumes "0 < k" "k < length (fst (analyzeHeadings doc))"
  shows "issues (fst (analyzeHeadings doc) ! k) =
     (if js_gt (level (fst (analyzeHeadings doc) ! k))
           (js_add (level (fst (analyzeHeadings doc) ! (k - 1))) (Number 1))
      then [skipped_message (level (fst (analyzeHeadings doc) ! (k - 1)))
              (level (fst (analyzeHeadings doc) ! k))]
      else [])"
proof -
  from assms have k: "k < length (querySelectorAll_headings doc)"
    by (simp add: analyze_length)
  from assms have "k - 1 < length (fst (analyzeHeadings doc))" by simp
  note prev = analyze_level(1) [OF this]
  note cur = analyze_level(1) [OF assms(2)]
  show ?thesis
    unfolding prev cur using assms(1) by (simp add: analyze_nth [OF k] pushed_record_def)
qed

lemma analyze_issues_first:
  assumes "0 < length (fst (analyzeHeadings doc))"
  shows "issues (fst (analyzeHeadings doc) ! 0) = []"
proof -
  from assms have k: "0 < length (querySelectorAll_headings doc)"
    by (simp add: analyze_length)
  show ?thesis
    by (simp add: analyze_nth [OF k] pushed_record_def)
qed

text \<open>
  Claim C1. For every document and every adjacent pair of headings at positions \<open>i - 1\<close> and
  \<open>i\<close> (\<open>i > 0\<close>) with levels \<open>a\<close> and \<open>b\<close>, the heading at position \<open>i\<close> carries an
  issue if and only if \<open>b > a + 1\<close>, and then its issues are exactly the one string
  \<open>Skipped heading level: H{a} followed by H{b}.\<close>, which names the previous heading's own
  level.
\<close>

theorem skip_issue_iff:
  assumes "0 < i" and "i < length (fst (analyzeHeadings doc))"
  shows "\<exists>a b. level (fst (analyzeHeadings doc) ! (i - 1)) = Number a
           \<and> level (fst (analyzeHeadings doc) ! i) = Number b
           \<and> (issues (fst (analyzeHeadings doc) ! i) \<noteq> [] \<longleftrightarrow> b > a + 1)
           \<and> (b > a + 1 \<longrightarrow> issues (fst (analyzeHeadings doc) ! i) =
                 [''Skipped heading level: H'' @ number_toString (Number a)
                    @ '' followed by H'' @ number_toString (Number b) @ ''.''])"
proof -
  from assms have "i - 1 < length (fst (analyzeHeadings doc))" by simp
  from analyze_level(2) [OF this] obtain a
    where a: "level (fst (analyzeHeadings doc) ! (i - 1)) = Number a" by blast
  from analyze_level(2) [OF assms(2)] obtain b
    where b: "level (fst (analyzeHeadings doc) ! i) = Number b" by blast
  show ?thesis
    using a b by (simp add: analyze_issues [OF assms] skipped_message_def)
qed

theorem skip_issue_iff_witness:
  "(0::nat) < 1 \<and> 1 < length (fst (analyzeHeadings scenario_doc))
   \<and> level (fst (analyzeHeadings scenario_doc) ! 0) = Number 1
   \<and> level (fst (analyzeHeadings scenario_doc) ! 1) = Number 3
   \<and> issues (fst (analyzeHeadings scenario_doc) ! 1) = [''Skipped heading level: H1 followed by H3.'']"
proof -
  have len: "1 < length (fst (analyzeHeadings scenario_doc))"
    by (simp add: scenario_eval)
  from skip_issue_iff [OF _ len] obtain a b where
    "level (fst (analyzeHeadings scenario_doc) ! (1 - 1)) = Number a"
    "level (fst (analyzeHeadings scenario_doc) ! 1) = Number b"
    "b > a + 1 \<longrightarrow> issues (fst (analyzeHeadings scenario_doc) ! 1) =
       [''Skipped heading level: H'' @ number_toString (Number a)
          @ '' followed by H'' @ number_toString (Number b) @ ''.'']"
    by auto
  then show ?thesis
    using len by (simp add: scenario_eval)
qed

text \<open>
  Claim C2. The first heading in document order never receives a skip-level issue, whatever
  its level; a document with a single heading (an H4, say) yields one record whose issues
  list is empty.
\<close>

theorem first_heading_exempt:
  "(fst (analyzeHeadings doc) \<noteq> [] \<longrightarrow> issues (hd (fst (analyzeHeadings doc))) = [])
   \<and> (querySelectorAll_headings doc = [e] \<longrightarrow>
        fst (analyzeHeadings doc) =
          [\<lparr>level = parseInt10 (drop 1 (tagName e)),
            text' = (case textContent e of None \<Rightarrow> [] | Some t \<Rightarrow> trim t),
            element = e, issues = []\<rparr>])"
proof (intro conjI impI)
  assume ne: "fst (analyzeHeadings doc) \<noteq> []"
  then have "issues (fst (analyzeHeadings doc) ! 0) = []"
    by (intro analyze_issues_first) simp
  with ne show "issues (hd (fst (analyzeHeadings doc))) = []"
    by (simp add: hd_conv_nth)
next
  assume "querySelectorAll_headings doc = [e]"
  then show "fst (analyzeHeadings doc) =
          [\<lparr>level = parseInt10 (drop 1 (tagName e)),
            text' = (case textContent e of None \<Rightarrow> [] | Some t \<Rightarrow> trim t),
            element = e, issues = []\<rparr>]"
    by (simp add: analyze_fst forEach_body_def Let_def)
qed

theorem first_heading_exempt_witness:
  "fst (analyzeHeadings h4_doc) \<noteq> []
   \<and> querySelectorAll_headings h4_doc = [\<lparr>tagName = ''H4'', textContent = Some ''Deep''\<rparr>]
   \<and> issues (hd (fst (analyzeHeadings h4_doc))) = []
   \<and> fst (analyzeHeadings h4_doc) =
       [\<lparr>level = Number 4, text' = ''Deep'',
         element = \<lparr>tagName = ''H4'', textContent = Some ''Deep''\<rparr>, issues = []\<rparr>]"
proof -
  have sel: "querySelectorAll_headings h4_doc = [\<lparr>tagName = ''H4'', textContent = Some ''Deep''\<rparr>]"
    by (simp add: h4_doc_def querySelectorAll_headings_def heading_tag_names_def)
  have lv: "parseInt10 (drop 1 ''H4'') = Number 4" "trim ''Deep'' = ''Deep''"
    by (simp_all add: parseInt10_def is_whitespace_def is_digit_def digits_value_def
        digit_value_def trim_def)
  from first_heading_exempt [of h4_doc "\<lparr>tagName = ''H4'', textContent = Some ''Deep''\<rparr>"]
  show ?thesis
    using sel lv by simp
qed

text \<open>
  Claim C3. For every adjacent pair of headings where the second level is lower than the
  first, the second heading carries no issue, however large the decrease.
\<close>

theorem decrease_not_flagged:
  assumes "0 < i" and "i < length (fst (analyzeHeadings doc))"
    and "level (fst (analyzeHeadings doc) ! (i - 1)) = Number a"
    and "level (fst (analyzeHeadings doc) ! i) = Number b"
    and "b < a"
  shows "issues (fst (analyzeHeadings doc) ! i) = []"
  using assms(3-5) by (simp add: analyze_issues [OF assms(1,2)])

theorem decrease_not_flagged_witness:
  "(0::nat) < 1 \<and> 1 < length (fst (analyzeHeadings decrease_doc))
   \<and> level (fst (analyzeHeadings decrease_doc) ! (1 - 1)) = Number 4
   \<and> level (fst (analyzeHeadings decrease_doc) ! 1) = Number 2
   \<and> (2::int) < 4
   \<and> issues (fst (analyzeHeadings decrease_doc) ! 1) = []"
proof -
  have ev: "map level (fst (analyzeHeadings decrease_doc)) = [Number 4, Number 2]"
    by (simp add: decrease_doc_def eval_defs)
  have h: "(0::nat) < 1" "1 < length (fst (analyzeHeadings decrease_doc))"
    "level (fst (analyzeHeadings decrease_doc) ! (1 - 1)) = Number 4"
    "level (fst (analyzeHeadings decrease_doc) ! 1) = Number 2" "(2::int) < 4"
    using ev by (simp_all add: decrease_doc_def eval_defs)
  from decrease_not_flagged [OF h] h show ?thesis by simp
qed

text \<open>
  Claim C4. A document without heading elements yields no heading records and the summary
  made of the "no H1" error line followed by the "logical sequence" line.
\<close>

theorem no_headings_result:
  assumes "querySelectorAll_headings doc = []"
  shows "analyzeHeadings doc =
     ([], [''Error: No H1 tag found. Every page should have one H1.'',
           ''Good: Heading levels follow a logical sequence.''])"
  using assms by (simp add: analyzeHeadings_def Let_def)

theorem no_headings_result_witness:
  "querySelectorAll_headings no_heading_doc = []
   \<and> analyzeHeadings no_heading_doc =
     ([], [''Error: No H1 tag found. Every page should have one H1.'',
           ''Good: Heading levels follow a logical sequence.''])"
proof -
  have h: "querySelectorAll_headings no_heading_doc = []"
    by (simp add: no_heading_doc_def querySelectorAll_headings_def heading_tag_names_def)
  from no_headings_result [OF h] h show ?thesis by simp
qed

section \<open>The summary\<close>

lemma level_one_iff:
  assumes "tagName e \<in> set heading_tag_names"
  shows "parseInt10 (drop 1 (tagName e)) = Number 1 \<longleftrightarrow> tagName e = ''H1''"
proof -
  from assms consider "tagName e = ''H1''" | "tagName e = ''H2''" | "tagName e = ''H3''"
    | "tagName e = ''H4''" | "tagName e = ''H5''" | "tagName e = ''H6''"
    by (auto simp: heading_tag_names_def)
  then show ?thesis
    by cases
      (simp_all add: parseInt10_def is_whitespace_def is_digit_def digits_value_def digit_value_def)
qed

lemma h1_elements_count:
  "length (filter (\<lambda>h. parseInt10 (drop 1 (tagName h)) = Number 1) (querySelectorAll_headings doc))
     = length (filter (\<lambda>e. tagName e = ''H1'') doc)"
proof -
  have "filter (\<lambda>h. parseInt10 (drop 1 (tagName h)) = Number 1) (querySelectorAll_headings doc)
          = filter (\<lambda>e. tagName e = ''H1'') doc"
    unfolding querySelectorAll_headings_def filter_filter
  proof (rule filter_cong [OF refl])
    fix e :: element
    show "(tagName e \<in> set heading_tag_names \<and> parseInt10 (drop 1 (tagName e)) = Number 1)
            = (tagName e = ''H1'')"
      using level_one_iff [of e] by (auto simp: heading_tag_names_def)
  qed
  then show ?thesis by (rule arg_cong)
qed

lemma analyze_snd:
  "snd (analyzeHeadings doc) =
     [if length (filter (\<lambda>e. tagName e = ''H1'') doc) = 0
      then ''Error: No H1 tag found. Every page should have one H1.''
      else if length (filter (\<lambda>e. tagName e = ''H1'') doc) > 1
      then ''Warning: Multiple H1 tags found ('' @ show_nat (length (filter (\<lambda>e. tagName e = ''H1'') doc))
             @ ''). Best practice is to have only one H1 per page.''
      else ''Good: Exactly one H1 tag found.'',
      if list_ex (\<lambda>h. list_ex (\<lambda>issue. startsWith issue ''Skipped'') (issues h))
           (fst (analyzeHeadings doc))
      then ''Issue: Heading levels are skipped (e.g., H1 followed directly by H3).''
      else ''Good: Heading levels follow a logical sequence.'']"
proof -
  let ?st = "forEach \<lparr>lastLevel = Number 0, headingsInfo = [], summary = [], h1Count = 0\<rparr>
               (querySelectorAll_headings doc) 0"
  have c: "h1Count ?st = length (filter (\<lambda>e. tagName e = ''H1'') doc)"
    unfolding forEach_h1Count h1_elements_count by simp
  have s: "summary ?st = []"
    by (simp add: forEach_summary)
  show ?thesis
    unfolding analyze_fst unfolding analyzeHeadings_def Let_def
    by (simp add: c s)
qed

text \<open>
  Claim C5. The summary is exactly two lines in fixed order: the H1-count line (error for
  no H1 element, success for exactly one, a warning stating the exact count for more), then
  the skip line (the aggregate issue line if some heading record carries an issue beginning
  with \<open>Skipped\<close>, the success line otherwise).
\<close>

theorem summary_two_lines:
  assumes "n = length (filter (\<lambda>e. tagName e = ''H1'') doc)"
  shows "snd (analyzeHeadings doc) =
     [if n = 0 then ''Error: No H1 tag found. Every page should have one H1.''
      else if n = 1 then ''Good: Exactly one H1 tag found.''
      else ''Warning: Multiple H1 tags found ('' @ show_nat n
             @ ''). Best practice is to have only one H1 per page.'',
      if (\<exists>h \<in> set (fst (analyzeHeadings doc)). \<exists>issue \<in> set (issues h). startsWith issue ''Skipped'')
      then ''Issue: Heading levels are skipped (e.g., H1 followed directly by H3).''
      else ''Good: Heading levels follow a logical sequence.'']"
proof -
  have "n = 0 \<or> n = 1 \<or> n > 1" by arith
  then show ?thesis
    unfolding analyze_snd [of doc] assms [symmetric] list_ex_iff by auto
qed

theorem summary_two_lines_witness:
  "(2::nat) = length (filter (\<lambda>e. tagName e = ''H1'') two_h1_doc)
   \<and> (\<exists>h \<in> set (fst (analyzeHeadings two_h1_doc)). \<exists>issue \<in> set (issues h). startsWith issue ''Skipped'')
   \<and> snd (analyzeHeadings two_h1_doc) =
     [''Warning: Multiple H1 tags found (2). Best practice is to have only one H1 per page.'',
      ''Issue: Heading levels are skipped (e.g., H1 followed directly by H3).'']"
proof -
  have n: "(2::nat) = length (filter (\<lambda>e. tagName e = ''H1'') two_h1_doc)"
    by (simp add: two_h1_doc_def)
  have ex: "\<exists>h \<in> set (fst (analyzeHeadings two_h1_doc)). \<exists>issue \<in> set (issues h). startsWith issue ''Skipped''"
    by (simp add: two_h1_doc_def eval_defs)
  from summary_two_lines [OF n] ex
  have "snd (analyzeHeadings two_h1_doc) =
     [''Warning: Multiple H1 tags found (2). Best practice is to have only one H1 per page.'',
      ''Issue: Heading levels are skipped (e.g., H1 followed directly by H3).'']"
    by (simp add: show_nat.simps digit_char_def)
  with n ex show ?thesis by blast
qed

section \<open>Issues per heading\<close>

text \<open>
  Claim C10. Every heading record carries at most one issue: its issues list is empty, or
  it is the single skip-level string for that heading and its immediate predecessor.
\<close>

theorem at_most_one_issue:
  assumes "i < length (fst (analyzeHeadings doc))"
  shows "issues (fst (analyzeHeadings doc) ! i) = []
     \<or> (0 < i \<and> issues (fst (analyzeHeadings doc) ! i) =
          [''Skipped heading level: H'' @ number_toString (level (fst (analyzeHeadings doc) ! (i - 1)))
             @ '' followed by H'' @ number_toString (level (fst (analyzeHeadings doc) ! i)) @ ''.''])"
proof (cases "i = 0")
  case True
  with assms show ?thesis
    using analyze_issues_first [of doc] by simp
next
  case False
  then have "0 < i" by simp
  from analyze_issues [OF this assms] show ?thesis
    using False by (simp add: skipped_message_def)
qed

theorem at_most_one_issue_witness:
  "1 < length (fst (analyzeHeadings scenario_doc))
   \<and> issues (fst (analyzeHeadings scenario_doc) ! 1) \<noteq> []
   \<and> issues (fst (analyzeHeadings scenario_doc) ! 1) = [''Skipped heading level: H1 followed by H3.'']"
proof -
  have h: "1 < length (fst (analyzeHeadings scenario_doc))"
    and ne: "issues (fst (analyzeHeadings scenario_doc) ! 1) \<noteq> []"
    and lv: "level (fst (analyzeHeadings scenario_doc) ! (1 - 1)) = Number 1"
      "level (fst (analyzeHeadings scenario_doc) ! 1) = Number 3"
    by (simp_all add: scenario_eval)
  from at_most_one_issue [OF h] ne lv show ?thesis
    using h by (simp add: show_nat.simps digit_char_def)
qed

section \<open>The report\<close>

lemma fold_append_lines:
  "fold (\<lambda>item output. output @ f item) xs out = out @ concat (map f xs)"
  by (induction xs arbitrary: out) simp_all

lemma repeat_indent:
  assumes "level h = Number n" and "1 \<le> n"
  shows "repeat ''  '' (js_sub (level h) (Number 1)) =
           Inr (concat (replicate (indent_units (level h)) ''  ''))"
  using assms by (simp add: repeat_def indent_units_def)

lemma forEach_issue_lines:
  assumes "level h = Number n" and "1 \<le> n"
  shows "forEach_issue out h iss =
     Inr (out @ concat (map (\<lambda>issue. concat (replicate (indent_units (level h)) ''  '')
                                   @ ''  -> Issue: '' @ issue @ ''\<newline>'') iss))"
proof (induction iss arbitrary: out)
  case Nil
  show ?case by simp
next
  case (Cons issue rest)
  show ?case
    by (simp only: forEach_issue.simps repeat_indent [OF assms] sum.case Cons.IH) simp
qed

lemma forEach_heading_lines:
  assumes "\<forall>h \<in> set hs. \<exists>n. level h = Number n \<and> 1 \<le> n"
  shows "forEach_heading out hs =
     Inr (out @ concat (map (\<lambda>h.
            concat (replicate (indent_units (level h)) ''  '') @ ''H'' @ number_toString (level h)
              @ '': '' @ text' h @ ''\<newline>''
            @ concat (map (\<lambda>issue. concat (replicate (indent_units (level h)) ''  '')
                                   @ ''  -> Issue: '' @ issue @ ''\<newline>'') (issues h))) hs))"
  using assms
proof (induction hs arbitrary: out)
  case Nil
  show ?case by simp
next
  case (Cons h hs)
  from Cons.prems obtain n where n: "level h = Number n" "1 \<le> n" by auto
  from Cons.prems have rest: "\<forall>h \<in> set hs. \<exists>n. level h = Number n \<and> 1 \<le> n" by simp
  show ?case
  proof (cases "issues h = []")
    case True
    then show ?thesis
      by (simp only: forEach_heading.simps repeat_indent [OF n] sum.case Let_def Cons.IH [OF rest])
        simp
  next
    case False
    then have "length (issues h) > 0" by simp
    then show ?thesis
      by (simp only: forEach_heading.simps repeat_indent [OF n] sum.case Let_def if_True
          forEach_issue_lines [OF n] Cons.IH [OF rest]) simp
  qed
qed

lemma formatResultsForExport_layout:
  assumes "\<forall>h \<in> set (headings s). \<exists>n. level h = Number n \<and> 1 \<le> n"
  shows "formatResultsForExport s =
     Inr (''Heading Structure Analysis for: '' @ url s @ ''\<newline>''
          @ ''========================================\<newline>\<newline>''
          @ ''Summary:\<newline>''
          @ concat (map (\<lambda>item. ''- '' @ item @ ''\<newline>'') (analysisSummary s))
          @ ''\<newline>''
          @ ''Headings Found:\<newline>''
          @ concat (map (\<lambda>h.
              concat (replicate (indent_units (level h)) ''  '') @ ''H'' @ number_toString (level h)
                @ '': '' @ text' h @ ''\<newline>''
              @ concat (map (\<lambda>issue. concat (replicate (indent_units (level h)) ''  '')
                                     @ ''  -> Issue: '' @ issue @ ''\<newline>'') (issues h)))
              (headings s))
          @ ''\<newline>========================================\<newline>'')"
  unfolding formatResultsForExport_def Let_def fold_append_lines forEach_heading_lines [OF assms]
  by simp

text \<open>
  Claim C7. The formatter renders the held result and the entered URL as a flat text report:
  the header line, a rule and the \<open>Summary:\<close> label, each summary line prefixed with
  \<open>- \<close>, the \<open>Headings Found:\<close> label, then each heading as \<open>H{level}: {text}\<close> indented
  by \<open>(level - 1)\<close> units of two spaces, each of its issues as a sub-line indented one unit
  further and prefixed \<open>-> Issue: \<close>, and a closing rule. The report is this serialisation of
  the data and nothing else.
\<close>

theorem report_layout:
  assumes "\<forall>h \<in> set (headings s). \<exists>n. level h = Number n \<and> 1 \<le> n"
  shows "formatResultsForExport s =
     Inr (''Heading Structure Analysis for: '' @ url s @ ''\<newline>''
          @ ''========================================\<newline>\<newline>''
          @ ''Summary:\<newline>''
          @ concat (map (\<lambda>item. ''- '' @ item @ ''\<newline>'') (analysisSummary s))
          @ ''\<newline>''
          @ ''Headings Found:\<newline>''
          @ concat (map (\<lambda>h.
              concat (replicate (indent_units (level h)) ''  '') @ ''H'' @ number_toString (level h)
                @ '': '' @ text' h @ ''\<newline>''
              @ concat (map (\<lambda>issue. concat (replicate (indent_units (level h)) ''  '')
                                     @ ''  -> Issue: '' @ issue @ ''\<newline>'') (issues h)))
              (headings s))
          @ ''\<newline>========================================\<newline>'')"
  using assms by (rule formatResultsForExport_layout)

theorem report_layout_witness:
  "map level (headings example_state) = [Number 1, Number 3]
   \<and> formatResultsForExport example_state =
     Inr (''Heading Structure Analysis for: example.com\<newline>''
          @ ''========================================\<newline>''
          @ ''\<newline>''
          @ ''Summary:\<newline>''
          @ ''- Good: Exactly one H1 tag found.\<newline>''
          @ ''- Issue: Heading levels are skipped (e.g., H1 followed directly by H3).\<newline>''
          @ ''\<newline>''
          @ ''Headings Found:\<newline>''
          @ ''H1: Title\<newline>''
          @ ''    H3: Sub\<newline>''
          @ ''      -> Issue: Skipped heading level: H1 followed by H3.\<newline>''
          @ ''\<newline>''
          @ ''========================================\<newline>'')"
proof -
  have h: "\<forall>h \<in> set (headings example_state). \<exists>n. level h = Number n \<and> 1 \<le> n"
    by (simp add: example_state_def)
  from report_layout [OF h] have "formatResultsForExport example_state =
     Inr (''Heading Structure Analysis for: example.com\<newline>''
          @ ''========================================\<newline>''
          @ ''\<newline>''
          @ ''Summary:\<newline>''
          @ ''- Good: Exactly one H1 tag found.\<newline>''
          @ ''- Issue: Heading levels are skipped (e.g., H1 followed directly by H3).\<newline>''
          @ ''\<newline>''
          @ ''Headings Found:\<newline>''
          @ ''H1: Title\<newline>''
          @ ''    H3: Sub\<newline>''
          @ ''      -> Issue: Skipped heading level: H1 followed by H3.\<newline>''
          @ ''\<newline>''
          @ ''========================================\<newline>'')"
    by (simp add: example_state_def indent_units_def show_nat.simps digit_char_def numeral_2_eq_2)
  moreover have "map level (headings example_state) = [Number 1, Number 3]"
    by (simp add: example_state_def)
  ultimately show ?thesis by blast
qed

section \<open>The handler\<close>

text \<open>
  Claim C8. A run with an empty URL is rejected before any fetch: the error message
  \<open>Please enter a URL.\<close> is set, nothing else of the state changes, and neither the fetch
  nor the analyzer is called.
\<close>

theorem empty_url_rejected:
  assumes "url s = []"
  shows "handleFetchAndAnalyze env s = (s\<lparr>error := Some ''Please enter a URL.''\<rparr>, [])
     \<and> headings (fst (handleFetchAndAnalyze env s)) = headings s
     \<and> analysisSummary (fst (handleFetchAndAnalyze env s)) = analysisSummary s
     \<and> (\<forall>u. Fetch u \<notin> set (snd (handleFetchAndAnalyze env s)))
     \<and> (\<forall>doc. Analyze doc \<notin> set (snd (handleFetchAndAnalyze env s)))"
  using assms by (simp add: handleFetchAndAnalyze_def)

theorem empty_url_rejected_witness:
  "url (example_state\<lparr>url := []\<rparr>) = []
   \<and> handleFetchAndAnalyze not_found_env (example_state\<lparr>url := []\<rparr>) =
       (example_state\<lparr>url := [], error := Some ''Please enter a URL.''\<rparr>, [])"
proof -
  have h: "url (example_state\<lparr>url := []\<rparr>) = []" by simp
  from empty_url_rejected [OF h, of not_found_env] h show ?thesis by simp
qed

text \<open>
  Claim C9. When the fetch fails (the request is rejected, the body cannot be read, or the
  response status is not a success), the run holds no heading record and no summary line
  afterwards, the analyzer is not called, and the error message contains the text of the
  underlying failure.
\<close>

theorem fetch_failure_aborts:
  assumes "url s \<noteq> []"
    and "(\<exists>err. (fetch env (proxyUrl_of env (url s)) = FetchRejects err
                \<or> (\<exists>status statusText.
                      fetch env (proxyUrl_of env (url s)) = FetchResolves True status statusText (TextRejects err)))
              \<and> txt = (case err of ErrorObject message \<Rightarrow> message | OtherValue str \<Rightarrow> str))
        \<or> (\<exists>status statusText body.
              fetch env (proxyUrl_of env (url s)) = FetchResolves False status statusText body
              \<and> txt = ''Failed to fetch: '' @ show_nat status @ '' '' @ statusText)"
  shows "headings (fst (handleFetchAndAnalyze env s)) = []
     \<and> analysisSummary (fst (handleFetchAndAnalyze env s)) = []
     \<and> (\<forall>doc. Analyze doc \<notin> set (snd (handleFetchAndAnalyze env s)))
     \<and> error (fst (handleFetchAndAnalyze env s)) =
         Some (''Failed to fetch or parse the URL. Error: '' @ txt
           @ ''. This might be due to network issues, the website blocking requests, or the CORS proxy limitations.'')"
proof -
  from assms(2) have "\<exists>err. fetch_document env (proxyUrl_of env (url s)) = Inl err
      \<and> txt = (case err of ErrorObject message \<Rightarrow> message | OtherValue str \<Rightarrow> str)"
    by (elim disjE exE conjE) (simp_all add: fetch_document_def)
  then obtain err where
    err: "fetch_document env (proxyUrl_of env (url s)) = Inl err"
      "txt = (case err of ErrorObject message \<Rightarrow> message | OtherValue str \<Rightarrow> str)"
    by blast
  show ?thesis
    using assms(1) err by (simp add: handleFetchAndAnalyze_def Let_def)
qed

theorem fetch_failure_aborts_witness:
  "url example_state \<noteq> []
   \<and> fetch not_found_env (proxyUrl_of not_found_env (url example_state)) =
        FetchResolves False 404 ''Not Found'' (TextResolves ''<h1>Not Found</h1>'')
   \<and> headings example_state \<noteq> []
   \<and> headings (fst (handleFetchAndAnalyze not_found_env example_state)) = []
   \<and> analysisSummary (fst (handleFetchAndAnalyze not_found_env example_state)) = []
   \<and> error (fst (handleFetchAndAnalyze not_found_env example_state)) =
        Some ''Failed to fetch or parse the URL. Error: Failed to fetch: 404 Not Found. This might be due to network issues, the website blocking requests, or the CORS proxy limitations.''
   \<and> fetch offline_env (proxyUrl_of offline_env (url example_state)) =
        FetchRejects (ErrorObject ''Failed to fetch'')
   \<and> headings (fst (handleFetchAndAnalyze offline_env example_state)) = []
   \<and> analysisSummary (fst (handleFetchAndAnalyze offline_env example_state)) = []
   \<and> error (fst (handleFetchAndAnalyze offline_env example_state)) =
        Some ''Failed to fetch or parse the URL. Error: Failed to fetch. This might be due to network issues, the website blocking requests, or the CORS proxy limitations.''"
proof -
  have u: "url example_state \<noteq> []" and hs: "headings example_state \<noteq> []"
    by (simp_all add: example_state_def)
  have f: "fetch not_found_env (proxyUrl_of not_found_env (url example_state)) =
        FetchResolves False 404 ''Not Found'' (TextResolves ''<h1>Not Found</h1>'')"
    by (simp add: not_found_env_def)
  have t: "''Failed to fetch: 404 Not Found'' = ''Failed to fetch: '' @ show_nat 404 @ '' '' @ ''Not Found''"
    by (simp add: show_nat.simps digit_char_def)
  from f t have "(\<exists>err. (fetch not_found_env (proxyUrl_of not_found_env (url example_state)) = FetchRejects err
                \<or> (\<exists>status statusText.
                      fetch not_found_env (proxyUrl_of not_found_env (url example_state))
                        = FetchResolves True status statusText (TextRejects err)))
              \<and> ''Failed to fetch: 404 Not Found''
                  = (case err of ErrorObject message \<Rightarrow> message | OtherValue str \<Rightarrow> str))
        \<or> (\<exists>status statusText body.
              fetch not_found_env (proxyUrl_of not_found_env (url example_state))
                = FetchResolves False status statusText body
              \<and> ''Failed to fetch: 404 Not Found'' = ''Failed to fetch: '' @ show_nat status @ '' '' @ statusText)"
    by blast
  note not_found = fetch_failure_aborts [OF u this]
  have g: "fetch offline_env (proxyUrl_of offline_env (url example_state)) =
        FetchRejects (ErrorObject ''Failed to fetch'')"
    by (simp add: offline_env_def)
  then have "(\<exists>err. (fetch offline_env (proxyUrl_of offline_env (url example_state)) = FetchRejects err
                \<or> (\<exists>status statusText.
                      fetch offline_env (proxyUrl_of offline_env (url example_state))
                        = FetchResolves True status statusText (TextRejects err)))
              \<and> ''Failed to fetch''
                  = (case err of ErrorObject message \<Rightarrow> message | OtherValue str \<Rightarrow> str))
        \<or> (\<exists>status statusText body.
              fetch offline_env (proxyUrl_of offline_env (url example_state))
                = FetchResolves False status statusText body
              \<and> ''Failed to fetch'' = ''Failed to fetch: '' @ show_nat status @ '' '' @ statusText)"
    by (intro disjI1 exI [of _ "ErrorObject ''Failed to fetch''"]) simp
  note offline = fetch_failure_aborts [OF u this]
  from not_found offline u f g hs show ?thesis by simp
qed

section \<open>Reading a report back\<close>

subsection \<open>Decimal digits\<close>

lemma digit_char_props:
  assumes "d < 10"
  shows "is_digit (digit_char d)" and "digit_value (digit_char d) = d"
    and "digit_char d \<noteq> CHR ''\<newline>''"
proof -
  from assms have "d = 0 \<or> d = 1 \<or> d = 2 \<or> d = 3 \<or> d = 4 \<or> d = 5 \<or> d = 6 \<or> d = 7 \<or> d = 8 \<or> d = 9"
    by arith
  then show "is_digit (digit_char d)" and "digit_value (digit_char d) = d"
    and "digit_char d \<noteq> CHR ''\<newline>''"
    by (auto simp: digit_char_def is_digit_def digit_value_def)
qed

lemma show_nat_digits: "c \<in> set (show_nat n) \<Longrightarrow> is_digit c \<and> c \<noteq> CHR ''\<newline>''"
proof (induction n arbitrary: c rule: show_nat.induct)
  case (1 n)
  show ?case
  proof (cases "n < 10")
    case True
    with "1.prems" show ?thesis
      by (simp add: show_nat.simps [of n] digit_char_props)
  next
    case False
    with "1.prems" have "c \<in> set (show_nat (n div 10)) \<or> c = digit_char (n mod 10)"
      by (auto simp: show_nat.simps [of n])
    then show ?thesis
      using "1.IH" [OF False] by (auto simp: digit_char_props)
  qed
qed

lemma show_nat_nonempty: "show_nat n \<noteq> []"
  by (simp add: show_nat.simps [of n])

lemma digits_value_snoc: "digits_value (ds @ [c]) = 10 * digits_value ds + digit_value c"
  by (simp add: digits_value_def)

lemma digits_value_show_nat: "digits_value (show_nat n) = n"
proof (induction n rule: show_nat.induct)
  case (1 n)
  show ?case
  proof (cases "n < 10")
    case True
    then show ?thesis
      by (simp add: show_nat.simps [of n] digits_value_def digit_char_props)
  next
    case False
    then show ?thesis
      using "1.IH" [OF False]
      by (simp add: show_nat.simps [of n] digits_value_snoc digit_char_props)
  qed
qed

lemma takeWhile_digits_show_nat:
  "takeWhile is_digit (show_nat n @ CHR '':'' # r) = show_nat n"
  "dropWhile is_digit (show_nat n @ CHR '':'' # r) = CHR '':'' # r"
proof -
  have nd: "\<not> is_digit CHR '':''" by (simp add: is_digit_def)
  have all: "\<And>c. c \<in> set (show_nat n) \<Longrightarrow> is_digit c" using show_nat_digits by blast
  show "takeWhile is_digit (show_nat n @ CHR '':'' # r) = show_nat n"
    using all nd by simp
  show "dropWhile is_digit (show_nat n @ CHR '':'' # r) = CHR '':'' # r"
    using all nd by simp
qed

subsection \<open>Indentation\<close>

lemma indent_spaces: "c \<in> set (concat (replicate k ''  '')) \<Longrightarrow> c = CHR '' ''"
  by (induction k) auto

lemma indent_length: "length (concat (replicate k ''  '')) = 2 * k"
  by (induction k) auto

lemma indent_Suc: "concat (replicate (Suc k) ''  '') = concat (replicate k ''  '') @ ''  ''"
  by (induction k) auto

lemma takeWhile_indent:
  assumes "c \<noteq> CHR '' ''"
  shows "takeWhile (\<lambda>c. c = CHR '' '') (concat (replicate k ''  '') @ c # r) = concat (replicate k ''  '')"
    and "dropWhile (\<lambda>c. c = CHR '' '') (concat (replicate k ''  '') @ c # r) = c # r"
  using assms by (induction k) simp_all

subsection \<open>Reading one line\<close>

lemma parse_heading_line_heading:
  assumes "level h = Number n" and "1 \<le> n"
  shows "parse_heading_line (heading_line h) = Some (level h, text' h)"
proof -
  let ?ind = "concat (replicate (nat (n - 1)) ''  '')"
  let ?r = "show_nat (nat n) @ CHR '':'' # CHR '' '' # text' h"
  have line: "heading_line h = ?ind @ CHR ''H'' # ?r"
    using assms by (simp add: heading_line_def indent_units_def)
  have t: "takeWhile (\<lambda>c. c = CHR '' '') (?ind @ CHR ''H'' # ?r) = ?ind"
    and d: "dropWhile (\<lambda>c. c = CHR '' '') (?ind @ CHR ''H'' # ?r) = CHR ''H'' # ?r"
    by (rule takeWhile_indent, simp)+
  have v: "int (digits_value (show_nat (nat n))) = n"
    using assms(2) by (simp add: digits_value_show_nat)
  have len: "int (length ?ind) = 2 * (n - 1)"
    using assms(2) by (simp add: indent_length)
  show ?thesis
    unfolding line parse_heading_line_def t d Let_def
    by (simp add: takeWhile_digits_show_nat show_nat_nonempty v len assms(1))
qed

lemma parse_heading_line_issue: "parse_heading_line (issue_line h issue) = None"
proof -
  let ?ind = "concat (replicate (Suc (indent_units (level h))) ''  '')"
  let ?r = "''> Issue: '' @ issue"
  have line: "issue_line h issue = ?ind @ CHR ''-'' # ?r"
    unfolding issue_line_def indent_Suc by simp
  have d: "dropWhile (\<lambda>c. c = CHR '' '') (?ind @ CHR ''-'' # ?r) = CHR ''-'' # ?r"
    by (rule takeWhile_indent, simp)
  show ?thesis
    unfolding line parse_heading_line_def d Let_def by simp
qed

lemma parse_heading_line_fixed:
  "parse_heading_line [] = None"
  "parse_heading_line ''========================================'' = None"
  "parse_heading_line ''Headings Found:'' = None"
  by (simp_all add: parse_heading_line_def is_digit_def)

lemma hd_of_marker: "hd ''Headings Found:'' \<noteq> CHR '' ''"
  by simp

subsection \<open>Splitting the report into lines\<close>

lemma split_lines_nonempty: "split_lines s \<noteq> []"
  by (induction s) (auto split: list.splits)

lemma split_lines_single: "CHR ''\<newline>'' \<notin> set l \<Longrightarrow> split_lines l = [l]"
  by (induction l) auto

lemma split_lines_append:
  "split_lines (a @ CHR ''\<newline>'' # b) = split_lines a @ split_lines b"
proof (induction a)
  case Nil
  show ?case by simp
next
  case (Cons c a)
  show ?case
  proof (cases "c = CHR ''\<newline>''")
    case True
    then show ?thesis using Cons.IH by simp
  next
    case False
    obtain l ls where ls: "split_lines a = l # ls"
      using split_lines_nonempty [of a] by (cases "split_lines a") auto
    with False Cons.IH show ?thesis by simp
  qed
qed

lemma split_lines_terminated:
  assumes "\<forall>l \<in> set ls. CHR ''\<newline>'' \<notin> set l"
  shows "split_lines (concat (map (\<lambda>l. l @ ''\<newline>'') ls) @ rest) = ls @ split_lines rest"
  using assms
proof (induction ls)
  case Nil
  show ?case by simp
next
  case (Cons l ls)
  then have l: "CHR ''\<newline>'' \<notin> set l" and IH: "split_lines (concat (map (\<lambda>l. l @ ''\<newline>'') ls) @ rest) = ls @ split_lines rest"
    by simp_all
  have "split_lines (l @ CHR ''\<newline>'' # (concat (map (\<lambda>l. l @ ''\<newline>'') ls) @ rest))
          = split_lines l @ split_lines (concat (map (\<lambda>l. l @ ''\<newline>'') ls) @ rest)"
    by (rule split_lines_append)
  then show ?case
    by (simp add: IH split_lines_single [OF l])
qed

subsection \<open>The heading section\<close>

lemma heading_section_none:
  "''Headings Found:'' \<notin> set ls \<Longrightarrow> heading_section ls = None"
  by (induction ls) auto

lemma heading_section_last:
  "''Headings Found:'' \<notin> set ls \<Longrightarrow> heading_section (pre @ ''Headings Found:'' # ls) = Some ls"
  by (induction pre) (simp_all add: heading_section_none)

lemma map_filter_append: "List.map_filter f (xs @ ys) = List.map_filter f xs @ List.map_filter f ys"
  by (simp add: List.map_filter_def)

lemma map_filter_none: "(\<forall>x \<in> set xs. f x = None) \<Longrightarrow> List.map_filter f xs = []"
  by (induction xs) simp_all

lemma parse_report_lines:
  assumes "\<forall>h \<in> set hs. \<exists>n. level h = Number n \<and> 1 \<le> n"
  shows "List.map_filter parse_heading_line (report_lines hs) = level_text_pairs hs"
  using assms
proof (induction hs)
  case Nil
  show ?case by (simp add: report_lines_def level_text_pairs_def)
next
  case (Cons h hs)
  from Cons.prems obtain n where n: "level h = Number n" "1 \<le> n" by auto
  from Cons have IH: "List.map_filter parse_heading_line (report_lines hs) = level_text_pairs hs"
    by simp
  have iss: "List.map_filter parse_heading_line (map (issue_line h) (issues h)) = []"
    by (rule map_filter_none) (simp add: parse_heading_line_issue)
  have "report_lines (h # hs) = heading_line h # map (issue_line h) (issues h) @ report_lines hs"
    by (simp add: report_lines_def)
  then show ?case
    using IH iss
    by (simp add: map_filter_append parse_heading_line_heading [OF n]
        level_text_pairs_def)
qed

lemma marker_not_report_line:
  assumes "\<forall>h \<in> set hs. \<exists>n. level h = Number n \<and> 1 \<le> n"
  shows "''Headings Found:'' \<notin> set (report_lines hs)"
proof
  assume "''Headings Found:'' \<in> set (report_lines hs)"
  then obtain h where h: "h \<in> set hs"
    and "''Headings Found:'' = heading_line h \<or> ''Headings Found:'' \<in> issue_line h ` set (issues h)"
    by (auto simp: report_lines_def)
  then consider "''Headings Found:'' = heading_line h"
    | issue where "''Headings Found:'' = issue_line h issue"
    by auto
  then show False
  proof cases
    case 1
    from assms h obtain n where "level h = Number n" "1 \<le> n" by auto
    from parse_heading_line_heading [OF this] show False
      unfolding 1 [symmetric] by (simp add: parse_heading_line_fixed)
  next
    case 2
    have "hd (issue_line h issue) = CHR '' ''"
      by (cases "indent_units (level h)") (simp_all add: issue_line_def)
    with 2 show False by (metis hd_of_marker)
  qed
qed

subsection \<open>The lines of the heading section\<close>

lemma blocks_as_lines:
  "concat (map (\<lambda>h.
      concat (replicate (indent_units (level h)) ''  '') @ ''H'' @ number_toString (level h)
        @ '': '' @ text' h @ ''\<newline>''
      @ concat (map (\<lambda>issue. concat (replicate (indent_units (level h)) ''  '')
                             @ ''  -> Issue: '' @ issue @ ''\<newline>'') (issues h))) hs)
   = concat (map (\<lambda>l. l @ ''\<newline>'') (report_lines hs))"
proof (induction hs)
  case Nil
  show ?case by (simp add: report_lines_def)
next
  case (Cons h hs)
  have "report_lines (h # hs) = heading_line h # map (issue_line h) (issues h) @ report_lines hs"
    by (simp add: report_lines_def)
  then show ?case
    using Cons.IH by (simp add: heading_line_def issue_line_def comp_def)
qed

lemma report_lines_no_newline:
  assumes "\<forall>h \<in> set hs. \<exists>n. level h = Number n \<and> 1 \<le> n"
    and "\<forall>h \<in> set hs. CHR ''\<newline>'' \<notin> set (text' h)"
    and "\<forall>h \<in> set hs. \<forall>issue \<in> set (issues h). CHR ''\<newline>'' \<notin> set issue"
  shows "\<forall>l \<in> set (report_lines hs). CHR ''\<newline>'' \<notin> set l"
proof
  fix l assume "l \<in> set (report_lines hs)"
  then obtain h where h: "h \<in> set hs"
    and "l = heading_line h \<or> l \<in> issue_line h ` set (issues h)"
    by (auto simp: report_lines_def)
  then consider "l = heading_line h" | issue where "issue \<in> set (issues h)" "l = issue_line h issue"
    by auto
  then show "CHR ''\<newline>'' \<notin> set l"
  proof cases
    case 1
    from assms(1) h obtain n where n: "level h = Number n" "1 \<le> n" by auto
    from assms(2) h have "CHR ''\<newline>'' \<notin> set (text' h)" by simp
    then show ?thesis
      using n show_nat_digits [of "CHR ''\<newline>''" "nat n"]
        indent_spaces [of "CHR ''\<newline>''" "indent_units (level h)"]
      unfolding 1 heading_line_def by auto
  next
    case 2
    from assms(3) h 2(1) have "CHR ''\<newline>'' \<notin> set issue" by simp
    then show ?thesis
      using indent_spaces [of "CHR ''\<newline>''" "indent_units (level h)"]
      unfolding 2 issue_line_def by auto
  qed
qed

lemma parse_report_of_sections:
  assumes "\<forall>l \<in> set ls. CHR ''\<newline>'' \<notin> set l"
    and "''Headings Found:'' \<notin> set ls"
  shows "parse_report (pre @ ''\<newline>'' @ ''Headings Found:\<newline>''
            @ concat (map (\<lambda>l. l @ ''\<newline>'') ls)
            @ ''\<newline>========================================\<newline>'')
         = List.map_filter parse_heading_line ls"
proof -
  let ?rule = "''========================================''"
  let ?tail = "''\<newline>========================================\<newline>''"
  have tail: "split_lines ?tail = [[], ?rule, []]"
    by simp
  have sec: "split_lines (concat (map (\<lambda>l. l @ ''\<newline>'') ls) @ ?tail) = ls @ [[], ?rule, []]"
    using split_lines_terminated [OF assms(1), of ?tail] tail by simp
  let ?rest = "concat (map (\<lambda>l. l @ ''\<newline>'') ls) @ ?tail"
  have marker: "split_lines ''Headings Found:'' = [''Headings Found:'']"
    by (rule split_lines_single) simp
  have shape: "pre @ ''\<newline>'' @ ''Headings Found:\<newline>'' @ concat (map (\<lambda>l. l @ ''\<newline>'') ls) @ ?tail
      = pre @ CHR ''\<newline>'' # (''Headings Found:'' @ CHR ''\<newline>'' # ?rest)"
    by simp
  have s1: "split_lines (pre @ CHR ''\<newline>'' # (''Headings Found:'' @ CHR ''\<newline>'' # ?rest))
      = split_lines pre @ split_lines (''Headings Found:'' @ CHR ''\<newline>'' # ?rest)"
    by (rule split_lines_append)
  have s2: "split_lines (''Headings Found:'' @ CHR ''\<newline>'' # ?rest)
      = split_lines ''Headings Found:'' @ split_lines ?rest"
    by (rule split_lines_append)
  have lines: "split_lines (pre @ ''\<newline>'' @ ''Headings Found:\<newline>''
                @ concat (map (\<lambda>l. l @ ''\<newline>'') ls) @ ?tail)
      = split_lines pre @ ''Headings Found:'' # (ls @ [[], ?rule, []])"
  proof -
    have "split_lines (pre @ ''\<newline>'' @ ''Headings Found:\<newline>''
                @ concat (map (\<lambda>l. l @ ''\<newline>'') ls) @ ?tail)
        = split_lines (pre @ CHR ''\<newline>'' # (''Headings Found:'' @ CHR ''\<newline>'' # ?rest))"
      using shape by (rule arg_cong)
    also have "\<dots> = split_lines pre @ (split_lines ''Headings Found:'' @ split_lines ?rest)"
      unfolding s1 s2 by (rule refl)
    also have "\<dots> = split_lines pre @ ([''Headings Found:''] @ (ls @ [[], ?rule, []]))"
      unfolding marker sec by (rule refl)
    also have "\<dots> = split_lines pre @ ''Headings Found:'' # (ls @ [[], ?rule, []])"
      by (simp only: append_Cons append_Nil)
    finally show ?thesis .
  qed
  have "''Headings Found:'' \<notin> set (ls @ [[], ?rule, []])"
    using assms(2) by simp
  from heading_section_last [OF this, of "split_lines pre"]
  show ?thesis
    unfolding parse_report_def lines
    by (simp add: map_filter_append parse_heading_line_fixed)
qed

lemma parse_report_format:
  assumes "\<forall>h \<in> set (headings s). \<exists>n. level h = Number n \<and> 1 \<le> n"
    and "\<forall>h \<in> set (headings s). CHR ''\<newline>'' \<notin> set (text' h)"
    and "\<forall>h \<in> set (headings s). \<forall>issue \<in> set (issues h). CHR ''\<newline>'' \<notin> set issue"
  shows "\<exists>report. formatResultsForExport s = Inr report
           \<and> parse_report report = level_text_pairs (headings s)"
proof -
  let ?pre = "''Heading Structure Analysis for: '' @ url s @ ''\<newline>''
          @ ''========================================\<newline>\<newline>''
          @ ''Summary:\<newline>''
          @ concat (map (\<lambda>item. ''- '' @ item @ ''\<newline>'') (analysisSummary s))"
  let ?report = "?pre @ ''\<newline>'' @ ''Headings Found:\<newline>''
            @ concat (map (\<lambda>l. l @ ''\<newline>'') (report_lines (headings s)))
            @ ''\<newline>========================================\<newline>''"
  have "formatResultsForExport s = Inr ?report"
    unfolding formatResultsForExport_layout [OF assms(1)] blocks_as_lines by simp
  moreover have "parse_report ?report = level_text_pairs (headings s)"
    using parse_report_of_sections [OF report_lines_no_newline [OF assms]
        marker_not_report_line [OF assms(1)], of ?pre]
    by (simp only: parse_report_lines [OF assms(1)])
  ultimately show ?thesis by blast
qed

lemma analyze_levels_ok:
  "\<forall>h \<in> set (fst (analyzeHeadings doc)). \<exists>n. level h = Number n \<and> 1 \<le> n"
proof
  fix h assume "h \<in> set (fst (analyzeHeadings doc))"
  then obtain k where k: "k < length (fst (analyzeHeadings doc))"
    and h: "h = fst (analyzeHeadings doc) ! k"
    by (auto simp: in_set_conv_nth)
  from analyze_level(2) [OF k] show "\<exists>n. level h = Number n \<and> 1 \<le> n"
    unfolding h by blast
qed

lemma analyze_issues_no_newline:
  "\<forall>h \<in> set (fst (analyzeHeadings doc)). \<forall>issue \<in> set (issues h). CHR ''\<newline>'' \<notin> set issue"
proof (intro ballI)
  fix h issue
  assume "h \<in> set (fst (analyzeHeadings doc))" and issue: "issue \<in> set (issues h)"
  then obtain k where k: "k < length (fst (analyzeHeadings doc))"
    and h: "h = fst (analyzeHeadings doc) ! k"
    by (auto simp: in_set_conv_nth)
  show "CHR ''\<newline>'' \<notin> set issue"
  proof (cases "k = 0")
    case True
    with k issue h analyze_issues_first [of doc] show ?thesis by simp
  next
    case False
    then have pos: "0 < k" and prev: "k - 1 < length (fst (analyzeHeadings doc))"
      using k by simp_all
    from analyze_level(2) [OF prev] obtain a
      where a: "level (fst (analyzeHeadings doc) ! (k - 1)) = Number a" "1 \<le> a" by blast
    from analyze_level(2) [OF k] obtain b
      where b: "level (fst (analyzeHeadings doc) ! k) = Number b" "1 \<le> b" by blast
    from issue have "issue = skipped_message (Number a) (Number b)"
      unfolding h analyze_issues [OF pos k] a b by (simp split: if_splits)
    then show ?thesis
      using a(2) b(2) show_nat_digits [of "CHR ''\<newline>''" "nat a"]
        show_nat_digits [of "CHR ''\<newline>''" "nat b"]
      by (auto simp: skipped_message_def)
  qed
qed

text \<open>
  Claim C6, as amended. For every result of the analyzer whose heading texts contain no line
  feed, and every URL, formatting the held result and reading the heading lines of the
  report back reproduces the sequence of (level, text) pairs in order.
\<close>

theorem roundtrip_single_line_texts:
  assumes "\<forall>h \<in> set (fst (analyzeHeadings doc)). CHR ''\<newline>'' \<notin> set (text' h)"
  shows "\<exists>report. formatResultsForExport (held_result u doc) = Inr report
           \<and> parse_report report = level_text_pairs (fst (analyzeHeadings doc))"
  using parse_report_format [of "held_result u doc"] assms
    analyze_levels_ok [of doc] analyze_issues_no_newline [of doc]
  by (simp add: held_result_def)

theorem roundtrip_single_line_texts_witness:
  "map text' (fst (analyzeHeadings scenario_doc)) = [''Title'', ''Sub'', ''Other'']
   \<and> formatResultsForExport (held_result ''example.com'' scenario_doc) =
       Inr (''Heading Structure Analysis for: example.com\<newline>''
          @ ''========================================\<newline>''
          @ ''\<newline>''
          @ ''Summary:\<newline>''
          @ ''- Good: Exactly one H1 tag found.\<newline>''
          @ ''- Issue: Heading levels are skipped (e.g., H1 followed directly by H3).\<newline>''
          @ ''\<newline>''
          @ ''Headings Found:\<newline>''
          @ ''H1: Title\<newline>''
          @ ''    H3: Sub\<newline>''
          @ ''      -> Issue: Skipped heading level: H1 followed by H3.\<newline>''
          @ ''  H2: Other\<newline>''
          @ ''\<newline>''
          @ ''========================================\<newline>'')
   \<and> parse_report (''Heading Structure Analysis for: example.com\<newline>''
          @ ''========================================\<newline>''
          @ ''\<newline>''
          @ ''Summary:\<newline>''
          @ ''- Good: Exactly one H1 tag found.\<newline>''
          @ ''- Issue: Heading levels are skipped (e.g., H1 followed directly by H3).\<newline>''
          @ ''\<newline>''
          @ ''Headings Found:\<newline>''
          @ ''H1: Title\<newline>''
          @ ''    H3: Sub\<newline>''
          @ ''      -> Issue: Skipped heading level: H1 followed by H3.\<newline>''
          @ ''  H2: Other\<newline>''
          @ ''\<newline>''
          @ ''========================================\<newline>'')
       = [(Number 1, ''Title''), (Number 3, ''Sub''), (Number 2, ''Other'')]"
proof -
  have texts: "map text' (fst (analyzeHeadings scenario_doc)) = [''Title'', ''Sub'', ''Other'']"
    by (simp add: scenario_eval)
  have h: "\<forall>h \<in> set (fst (analyzeHeadings scenario_doc)). CHR ''\<newline>'' \<notin> set (text' h)"
    by (simp add: scenario_eval)
  have f: "formatResultsForExport (held_result ''example.com'' scenario_doc) =
       Inr (''Heading Structure Analysis for: example.com\<newline>''
          @ ''========================================\<newline>''
          @ ''\<newline>''
          @ ''Summary:\<newline>''
          @ ''- Good: Exactly one H1 tag found.\<newline>''
          @ ''- Issue: Heading levels are skipped (e.g., H1 followed directly by H3).\<newline>''
          @ ''\<newline>''
          @ ''Headings Found:\<newline>''
          @ ''H1: Title\<newline>''
          @ ''    H3: Sub\<newline>''
          @ ''      -> Issue: Skipped heading level: H1 followed by H3.\<newline>''
          @ ''  H2: Other\<newline>''
          @ ''\<newline>''
          @ ''========================================\<newline>'')"
    by (simp add: held_result_def scenario_eval formatResultsForExport_def repeat_def
        show_nat.simps digit_char_def numeral_2_eq_2)
  have p: "level_text_pairs (fst (analyzeHeadings scenario_doc))
       = [(Number 1, ''Title''), (Number 3, ''Sub''), (Number 2, ''Other'')]"
    by (simp add: level_text_pairs_def scenario_eval)
  from roundtrip_single_line_texts [OF h, of "''example.com''"] obtain report
    where "formatResultsForExport (held_result ''example.com'' scenario_doc) = Inr report"
      and "parse_report report = level_text_pairs (fst (analyzeHeadings scenario_doc))"
    by blast
  with f p texts show ?thesis by simp
qed

text \<open>
  Claim C6 as stated fails for a heading whose text spans two lines: the second line of
  the text is read back as a heading of its own. The report is the very report of a
  document that has these two headings, so no reader of the report can tell the two
  results apart.
\<close>

theorem roundtrip_counterexample:
  "formatResultsForExport (held_result ''example.com'' multiline_doc) = Inr multiline_report
   \<and> parse_report multiline_report = [(Number 1, ''Intro''), (Number 2, ''Fake'')]
   \<and> level_text_pairs (fst (analyzeHeadings multiline_doc)) = [(Number 1, ''Intro\<newline>  H2: Fake'')]
   \<and> parse_report multiline_report \<noteq> level_text_pairs (fst (analyzeHeadings multiline_doc))
   \<and> formatResultsForExport (held_result ''example.com'' two_line_doc) = Inr multiline_report
   \<and> level_text_pairs (fst (analyzeHeadings two_line_doc)) = [(Number 1, ''Intro''), (Number 2, ''Fake'')]"
proof -
  have a1: "analyzeHeadings multiline_doc =
      ([\<lparr>level = Number 1, text' = ''Intro\<newline>  H2: Fake'',
         element = \<lparr>tagName = ''H1'', textContent = Some ''Intro\<newline>  H2: Fake''\<rparr>, issues = []\<rparr>],
       [''Good: Exactly one H1 tag found.'', ''Good: Heading levels follow a logical sequence.''])"
    by (simp add: multiline_doc_def eval_defs)
  have a2: "analyzeHeadings two_line_doc =
      ([\<lparr>level = Number 1, text' = ''Intro'',
         element = \<lparr>tagName = ''H1'', textContent = Some ''Intro''\<rparr>, issues = []\<rparr>,
        \<lparr>level = Number 2, text' = ''Fake'',
         element = \<lparr>tagName = ''H2'', textContent = Some ''Fake''\<rparr>, issues = []\<rparr>],
       [''Good: Exactly one H1 tag found.'', ''Good: Heading levels follow a logical sequence.''])"
    by (simp add: two_line_doc_def eval_defs)
  have f1: "formatResultsForExport (held_result ''example.com'' multiline_doc) = Inr multiline_report"
    by (simp add: held_result_def a1 formatResultsForExport_def repeat_def multiline_report_def
        show_nat.simps digit_char_def)
  have f2: "formatResultsForExport (held_result ''example.com'' two_line_doc) = Inr multiline_report"
    by (simp add: held_result_def a2 formatResultsForExport_def repeat_def multiline_report_def
        show_nat.simps digit_char_def)
  have p: "parse_report multiline_report = [(Number 1, ''Intro''), (Number 2, ''Fake'')]"
    by (simp add: multiline_report_def parse_report_def parse_heading_line_def is_digit_def
        digits_value_def digit_value_def)
  have l1: "level_text_pairs (fst (analyzeHeadings multiline_doc)) = [(Number 1, ''Intro\<newline>  H2: Fake'')]"
    by (simp add: level_text_pairs_def a1)
  have l2: "level_text_pairs (fst (analyzeHeadings two_line_doc)) = [(Number 1, ''Intro''), (Number 2, ''Fake'')]"
    by (simp add: level_text_pairs_def a2)
  from f1 f2 p l1 l2 show ?thesis by simp
qed

end
